theory Spec2Isabelle
  imports Main "HOL-Library.Sublist"
begin

section \<open>ArduinoTrace: data model\<close>

subsection \<open>Null-terminated character buffers\<close>

text \<open>
  A string literal of the program is a \<open>char list\<close>. The end of the list stands for the
  terminating \<open>'\0'\<close> the compiler appends; a \<open>'\0'\<close> inside the list ends the C string
  earlier, as it does for every \<open>const char *\<close> consumer.
\<close>

definition NUL :: char where
  "NUL = CHR 0x00"

text \<open>
  \<^verbatim>\<open>constexpr size_t strlen(const char *str) { return str[0] ? strlen(str + 1) + 1 : 0; }\<close>
\<close>

fun strlen :: "string \<Rightarrow> nat" where
  "strlen [] = 0"
| "strlen (c # str) = (if c \<noteq> NUL then strlen str + 1 else 0)"

text \<open>The character sequence that a null-terminated buffer denotes.\<close>

definition c_str :: "string \<Rightarrow> string" where
  "c_str buf = takeWhile (\<lambda>c. c \<noteq> NUL) buf"

subsection \<open>Build-time configuration\<close>

text \<open>
  \<^verbatim>\<open>#ifndef ARDUINOTRACE_ENABLE / #define ARDUINOTRACE_ENABLE 1 / #endif\<close> and
  \<^verbatim>\<open>#ifndef ARDUINOTRACE_ENABLE_FULLPATH / #define ... 0 / #else / #define ... 1 / #endif\<close>.
  The argument is what the build defined before the header is read (\<open>None\<close>: nothing).
  Any prior definition of the full-path macro, whatever its value, selects 1.
\<close>

definition ARDUINOTRACE_ENABLE :: "int option \<Rightarrow> int" where
  "ARDUINOTRACE_ENABLE predefined = (case predefined of None \<Rightarrow> 1 | Some v \<Rightarrow> v)"

definition ARDUINOTRACE_ENABLE_FULLPATH :: "int option \<Rightarrow> int" where
  "ARDUINOTRACE_ENABLE_FULLPATH predefined = (case predefined of None \<Rightarrow> 0 | Some _ \<Rightarrow> 1)"

section \<open>The path trimmer\<close>

text \<open>
  Template instantiation either yields a type or makes the program ill-formed. The two ways
  an instantiation of \<open>string_maker\<close> can be ill-formed:
  more than one partial specialization matches and none is more specialized than the
  others, or a template argument reads the literal past its terminator.
\<close>

datatype compile_error = Ambiguous_partial_specialization | Not_a_constant_expression

text \<open>
  \<^verbatim>\<open>TSourceString::data()[i]\<close>: the characters of the literal, its terminator at index
  \<open>length src\<close>, nothing beyond.
\<close>

definition data_at :: "string \<Rightarrow> nat \<Rightarrow> compile_error + char" where
  "data_at src i =
     (if i < length src then Inr (src ! i)
      else if i = length src then Inr NUL
      else Inl Not_a_constant_expression)"

text \<open>
  The pattern \<^verbatim>\<open>'/', collectedChars...\<close> (respectively \<^verbatim>\<open>'\\', collectedChars...\<close>) of the
  two separator specializations: the first collected character is a separator.
\<close>

definition separator_head :: "string \<Rightarrow> bool" where
  "separator_head collectedChars =
     (case collectedChars of [] \<Rightarrow> False | c # _ \<Rightarrow> c = CHR ''/'' \<or> c = CHR 0x5C)"

text \<open>
  \<^verbatim>\<open>string_maker<TSourceString, remainingLength, collectedChars...>::result\<close>, as the pack
  of the resulting \<^verbatim>\<open>string<...>\<close>, which is also the content of its \<open>data()\<close> buffer.

  Three partial specializations compete with the primary template:
    \<^item> \<^verbatim>\<open><TSourceString, remainingLength, '/', collectedChars...>\<close> and the same with
      \<^verbatim>\<open>'\\'\<close>, present only when \<^verbatim>\<open>ARDUINOTRACE_ENABLE_FULLPATH == 0\<close>: the result is the
      pack after the separator, then \<open>'\0'\<close>;
    \<^item> \<^verbatim>\<open><TSourceString, 0, collectedChars...>\<close>: the result is the whole pack, then \<open>'\0'\<close>.

  For arguments \<^verbatim>\<open><T, 0, '/', cs...>\<close> a separator specialization and the zero specialization
  both match. The first fixes the third argument and leaves the second open, the other
  fixes the second and leaves the third open: neither is at least as specialized as the
  other, and the instantiation is ambiguous. When exactly one specialization matches it is
  used; when none does, the primary template recurses with
  \<^verbatim>\<open>remainingLength - 1, TSourceString::data()[remainingLength - 1], collectedChars...\<close>.
\<close>

fun string_maker :: "int \<Rightarrow> string \<Rightarrow> nat \<Rightarrow> string \<Rightarrow> compile_error + string" where
  "string_maker fullpath src remainingLength collectedChars =
     (if fullpath = 0 \<and> separator_head collectedChars \<and> remainingLength = 0
        then Inl Ambiguous_partial_specialization
      else if fullpath = 0 \<and> separator_head collectedChars
        then Inr (tl collectedChars @ [NUL])
      else if remainingLength = 0
        then Inr (collectedChars @ [NUL])
      else (case data_at src (remainingLength - 1) of
              Inl e \<Rightarrow> Inl e
            | Inr c \<Rightarrow> string_maker fullpath src (remainingLength - 1) (c # collectedChars)))"

declare string_maker.simps [simp del]

text \<open>
  \<^verbatim>\<open>make_string<TStringSource> =
     string_maker<TStringSource, strlen(TStringSource::data())>::result\<close>
\<close>

definition make_string :: "int \<Rightarrow> string \<Rightarrow> compile_error + string" where
  "make_string fullpath src = string_maker fullpath src (strlen src) []"

subsection \<open>What the trimmer is meant to compute\<close>

definition is_separator :: "char \<Rightarrow> bool" where
  "is_separator c = (c = CHR ''/'' \<or> c = CHR 0x5C)"

text \<open>The text strictly after the last separator; the whole text when there is none.\<close>

definition after_last_separator :: "string \<Rightarrow> string" where
  "after_last_separator s = rev (takeWhile (\<lambda>c. \<not> is_separator c) (rev s))"

text \<open>The text up to and including the last separator; empty when there is none.\<close>

definition upto_last_separator :: "string \<Rightarrow> string" where
  "upto_last_separator s = rev (dropWhile (\<lambda>c. \<not> is_separator c) (rev s))"

section \<open>The output stream\<close>

text \<open>
  Modelled from the spec: the output stream is an external collaborator offering
  \<open>begin(speed)\<close>, \<open>print(text)\<close>, \<open>println(text)\<close>, \<open>flush()\<close> and a boolean "is ready"
  query. The stream object is the history of the calls it has received. What the calls put
  on the wire is modelled below from the spec's end-to-end scenarios: a character buffer is
  written up to its terminator, an integer in decimal, and \<open>println\<close> adds the line
  terminator, which is left as a parameter.
\<close>

datatype printable = Chars string | Number int

datatype serial_call =
    Begin int
  | Ready_query
  | Print printable
  | Println printable
  | Flush

type_synonym serial = "serial_call list"

definition serial_begin :: "serial \<Rightarrow> int \<Rightarrow> serial" where
  "serial_begin serial bauds = serial @ [Begin bauds]"

definition serial_print :: "serial \<Rightarrow> printable \<Rightarrow> serial" where
  "serial_print serial v = serial @ [Print v]"

definition serial_println :: "serial \<Rightarrow> printable \<Rightarrow> serial" where
  "serial_println serial v = serial @ [Println v]"

definition serial_flush :: "serial \<Rightarrow> serial" where
  "serial_flush serial = serial @ [Flush]"

definition digit_char :: "nat \<Rightarrow> char" where
  "digit_char d = ''0123456789'' ! d"

fun printNumber :: "nat \<Rightarrow> string" where
  "printNumber n =
     (if n < 10 then [digit_char n] else printNumber (n div 10) @ [digit_char (n mod 10)])"

declare printNumber.simps [simp del]

definition print_text :: "printable \<Rightarrow> string" where
  "print_text v =
     (case v of
        Chars buf \<Rightarrow> c_str buf
      | Number n \<Rightarrow> (if n < 0 then CHR ''-'' # printNumber (nat (- n)) else printNumber (nat n)))"

fun written :: "string \<Rightarrow> serial_call \<Rightarrow> string" where
  "written eol (Print v) = print_text v"
| "written eol (Println v) = print_text v @ eol"
| "written eol (Begin bauds) = []"
| "written eol Ready_query = []"
| "written eol Flush = []"

text \<open>Every character the stream has been asked to send, in order.\<close>

definition transmitted :: "string \<Rightarrow> serial \<Rightarrow> string" where
  "transmitted eol serial = concat (map (written eol) serial)"

fun is_print_call :: "serial_call \<Rightarrow> bool" where
  "is_print_call (Print v) = True"
| "is_print_call (Println v) = True"
| "is_print_call (Begin bauds) = False"
| "is_print_call Ready_query = False"
| "is_print_call Flush = False"

section \<open>The stream initializer\<close>

text \<open>
  \<^verbatim>\<open>Initializer(TSerial &serial, int bauds) { serial.begin(bauds); while (!serial) continue; }\<close>

  Whether the stream reports ready is decided outside the program: \<open>ready k\<close> is the answer
  to the query number \<open>k\<close> (counted from 0) after \<open>begin\<close>. The loop may run forever, so
  not returning is the value \<open>None\<close>.
\<close>

partial_function (option) wait_until_ready :: "(nat \<Rightarrow> bool) \<Rightarrow> nat \<Rightarrow> serial \<Rightarrow> serial option" where
  "wait_until_ready ready k serial =
     (if \<not> ready k then wait_until_ready ready (Suc k) (serial @ [Ready_query])
      else Some (serial @ [Ready_query]))"

definition Initializer :: "(nat \<Rightarrow> bool) \<Rightarrow> serial \<Rightarrow> int \<Rightarrow> serial option" where
  "Initializer ready serial bauds = wait_until_ready ready 0 (serial_begin serial bauds)"

section \<open>The trace emitter\<close>

text \<open>\<^verbatim>\<open>content[0]\<close> on a character buffer: its first character, the terminator when empty.\<close>

definition content0 :: "string \<Rightarrow> char" where
  "content0 content = (case content of [] \<Rightarrow> NUL | c # _ \<Rightarrow> c)"

text \<open>
  \<^verbatim>\<open>Printer<TFile>(serial, line, function, content, content2, prefix)\<close>. The file fragment is
  \<^verbatim>\<open>make_string<TFile>{}.data()\<close>; when that instantiation is ill-formed there is no
  emitter. The line is an \<open>int\<close>, as \<^verbatim>\<open>__LINE__\<close> is; function, label and prefix are
  character buffers; the value is anything the stream prints.
\<close>

definition Printer ::
  "int \<Rightarrow> string \<Rightarrow> serial \<Rightarrow> int \<Rightarrow> string \<Rightarrow> string \<Rightarrow> printable \<Rightarrow> string
     \<Rightarrow> compile_error + serial" where
  "Printer fullpath TFile serial line function content content2 prefix_text =
     (case make_string fullpath TFile of
        Inl e \<Rightarrow> Inl e
      | Inr file_data \<Rightarrow>
          let s1 = serial_print serial (Chars prefix_text);
              s2 = serial_print s1 (Chars file_data);
              s3 = serial_print s2 (Number line);
              s4 = serial_print s3 (Chars '': '');
              s5 = (if content0 content \<noteq> NUL then
                      let t1 = serial_print s4 (Chars function);
                          t2 = serial_print t1 (Chars '': '');
                          t3 = serial_print t2 (Chars content)
                      in serial_println t3 content2
                    else serial_println s4 (Chars function))
          in Inr (serial_flush s5))"

subsection \<open>The call-site macros, tracing enabled\<close>

text \<open>What the preprocessor injects at a call site.\<close>

record location =
  FILE :: string
  LINE :: int
  PRETTY_FUNCTION :: string

text \<open>
  \<^verbatim>\<open>ARDUINOTRACE_PRINT(prefix, file, line, function, content, content2)\<close> declares
  \<^verbatim>\<open>ArduinoTrace::Printer<__file> __tracer(ARDUINOTRACE_SERIAL, line, function, content,
  content2, prefix)\<close>.
\<close>

definition ARDUINOTRACE_PRINT ::
  "int \<Rightarrow> serial \<Rightarrow> string \<Rightarrow> string \<Rightarrow> int \<Rightarrow> string \<Rightarrow> string \<Rightarrow> printable
     \<Rightarrow> compile_error + serial" where
  "ARDUINOTRACE_PRINT fullpath serial prefix_text file line function content content2 =
     Printer fullpath file serial line function content content2 prefix_text"

definition TRACE :: "int \<Rightarrow> serial \<Rightarrow> location \<Rightarrow> compile_error + serial" where
  "TRACE fullpath serial loc =
     ARDUINOTRACE_PRINT fullpath serial ''    '' (FILE loc @ '':'') (LINE loc)
       (PRETTY_FUNCTION loc) '''' (Chars '''')"

definition DEBUG :: "int \<Rightarrow> serial \<Rightarrow> location \<Rightarrow> string \<Rightarrow> compile_error + serial" where
  "DEBUG fullpath serial loc message =
     ARDUINOTRACE_PRINT fullpath serial ''    '' (FILE loc @ '':'') (LINE loc)
       (PRETTY_FUNCTION loc) message (Chars '''')"

text \<open>\<^verbatim>\<open>#variable " = "\<close>: the spelling of the argument, then the label's tail.\<close>

definition DUMP ::
  "int \<Rightarrow> serial \<Rightarrow> location \<Rightarrow> string \<Rightarrow> printable \<Rightarrow> compile_error + serial" where
  "DUMP fullpath serial loc variable_spelling variable =
     ARDUINOTRACE_PRINT fullpath serial ''    '' (FILE loc @ '':'') (LINE loc)
       (PRETTY_FUNCTION loc) (variable_spelling @ '' = '') variable"

definition THROW :: "int \<Rightarrow> serial \<Rightarrow> location \<Rightarrow> string \<Rightarrow> compile_error + serial" where
  "THROW fullpath serial loc message =
     ARDUINOTRACE_PRINT fullpath serial ''******* ERROR: '' (FILE loc @ '':'') (LINE loc)
       (PRETTY_FUNCTION loc) message (Chars '''')"

text \<open>\<^verbatim>\<open>#define THROW_DUMP(message, variable) THROW(message) DUMP(variable)\<close>\<close>

definition THROW_DUMP ::
  "int \<Rightarrow> serial \<Rightarrow> location \<Rightarrow> string \<Rightarrow> string \<Rightarrow> printable \<Rightarrow> compile_error + serial" where
  "THROW_DUMP fullpath serial loc message variable_spelling variable =
     (case THROW fullpath serial loc message of
        Inl e \<Rightarrow> Inl e
      | Inr serial' \<Rightarrow> DUMP fullpath serial' loc variable_spelling variable)"

subsection \<open>The call-site macros, tracing disabled\<close>

text \<open>
  The \<^verbatim>\<open>#else\<close> branch of \<^verbatim>\<open>#if ARDUINOTRACE_ENABLE == 1\<close> is six \<^verbatim>\<open>#define\<close> lines, each
  with an empty replacement list. They are listed in source order as name and number of
  parameters. \<open>THROW\<close> is defined twice; the later definition is the one in force.
\<close>

definition disabled_defines :: "(string \<times> nat) list" where
  "disabled_defines =
     [(''ARDUINOTRACE_INIT'', 1),
      (''TRACE'', 0),
      (''DUMP'', 1),
      (''THROW'', 1),
      (''THROW'', 2),
      (''DEBUG'', 1)]"

datatype preprocess_error = Undefined_macro | Wrong_number_of_arguments

text \<open>
  A call site \<open>name(arg_1, ..., arg_n)\<close> in a build with tracing disabled. When the macro in
  force takes \<open>n\<close> arguments the call is replaced by nothing and the stream is left as it
  is; otherwise the call site does not compile.
\<close>

definition call_when_disabled :: "string \<Rightarrow> nat \<Rightarrow> serial \<Rightarrow> preprocess_error + serial" where
  "call_when_disabled name nargs serial =
     (case map_of (rev disabled_defines) name of
        None \<Rightarrow> Inl Undefined_macro
      | Some params \<Rightarrow> if nargs = params then Inr serial else Inl Wrong_number_of_arguments)"

section \<open>Properties of the path trimmer\<close>

lemma strlen_c_str: "strlen s = length (c_str s)"
  by (induction s) (simp_all add: c_str_def)

lemma c_str_append_rest: "c_str s @ dropWhile (\<lambda>c. c \<noteq> NUL) s = s"
  by (simp add: c_str_def)

lemma takeWhile_stop:
  "\<forall>c \<in> set ys. P c \<Longrightarrow> \<not> P x \<Longrightarrow> takeWhile P (ys @ x # zs) = ys"
  by (induction ys) auto

lemma dropWhile_stop:
  "\<forall>c \<in> set ys. P c \<Longrightarrow> \<not> P x \<Longrightarrow> dropWhile P (ys @ x # zs) = x # zs"
  by (induction ys) auto

lemma c_str_terminated: "NUL \<notin> set t \<Longrightarrow> c_str (t @ NUL # rest) = t"
  by (induction t) (auto simp: c_str_def)

lemma c_str_NUL_free: "NUL \<notin> set (c_str s)"
  by (auto simp: c_str_def dest: set_takeWhileD)

lemma c_str_idem: "c_str (c_str s) = c_str s"
  by (simp add: c_str_def)

lemma separator_head_Cons: "separator_head (c # cs) = is_separator c"
  by (simp add: separator_head_def is_separator_def)

lemma separator_head_Nil: "\<not> separator_head []"
  by (simp add: separator_head_def)

lemma data_at_append: "data_at (p @ x # q) (length p) = Inr x"
  by (simp add: data_at_def)

lemma after_last_separator_set: "set (after_last_separator s) \<subseteq> set s"
  by (auto simp: after_last_separator_def dest: set_takeWhileD)

lemma after_last_separator_free: "c \<in> set (after_last_separator s) \<Longrightarrow> \<not> is_separator c"
  by (auto simp: after_last_separator_def dest: set_takeWhileD)

lemma upto_after_last_separator: "upto_last_separator s @ after_last_separator s = s"
proof -
  have "upto_last_separator s @ after_last_separator s =
        rev (takeWhile (\<lambda>c. \<not> is_separator c) (rev s) @
             dropWhile (\<lambda>c. \<not> is_separator c) (rev s))"
    by (simp only: upto_last_separator_def after_last_separator_def rev_append)
  also have "\<dots> = s"
    by (simp only: takeWhile_dropWhile_id rev_rev_ident)
  finally show ?thesis .
qed

lemma no_separator_whole:
  assumes "\<forall>c \<in> set s. \<not> is_separator c"
  shows "after_last_separator s = s" and "upto_last_separator s = []"
proof -
  from assms have "\<forall>c \<in> set (rev s). \<not> is_separator c" by simp
  then have t: "takeWhile (\<lambda>c. \<not> is_separator c) (rev s) = rev s"
    and d: "dropWhile (\<lambda>c. \<not> is_separator c) (rev s) = []"
    by (simp_all only: takeWhile_eq_all_conv dropWhile_eq_Nil_conv)
  show "after_last_separator s = s"
    by (simp only: after_last_separator_def t rev_rev_ident)
  show "upto_last_separator s = []"
    by (simp only: upto_last_separator_def d rev.simps)
qed

lemma split_at_last_separator:
  assumes "is_separator x" and "\<forall>c \<in> set b. \<not> is_separator c"
  shows "after_last_separator (a @ x # b) = b" and "upto_last_separator (a @ x # b) = a @ [x]"
proof -
  have t: "takeWhile (\<lambda>c. \<not> is_separator c) (rev b @ x # rev a) = rev b"
    using assms by (intro takeWhile_stop) simp_all
  have d: "dropWhile (\<lambda>c. \<not> is_separator c) (rev b @ x # rev a) = x # rev a"
    using assms by (intro dropWhile_stop) simp_all
  show "after_last_separator (a @ x # b) = b"
    using t by (simp add: after_last_separator_def)
  show "upto_last_separator (a @ x # b) = a @ [x]"
    using d by (simp add: upto_last_separator_def)
qed

text \<open>
  The backward scan. With \<open>p\<close> the part of the literal still to be read and \<open>cs\<close> the
  characters collected so far (not starting with a separator), the scan ends in the text of
  \<open>p\<close> after its last separator, followed by \<open>cs\<close>, unless the last separator of \<open>p\<close> is its
  first character: then the scan reaches \<open>remainingLength = 0\<close> holding a separator.
\<close>

lemma string_maker_scan:
  "\<not> separator_head cs \<Longrightarrow>
   string_maker 0 (p @ q) (length p) cs =
     (if length (upto_last_separator p) = 1 then Inl Ambiguous_partial_specialization
      else Inr (after_last_separator p @ cs @ [NUL]))"
proof (induction p arbitrary: q cs rule: rev_induct)
  case Nil
  then show ?case
    by (simp add: string_maker.simps [of _ _ 0] upto_last_separator_def after_last_separator_def)
next
  case (snoc x p)
  have step: "string_maker 0 ((p @ [x]) @ q) (length (p @ [x])) cs =
              string_maker 0 (p @ x # q) (length p) (x # cs)"
    using snoc.prems by (subst string_maker.simps) (simp add: data_at_append)
  show ?case
  proof (cases "is_separator x")
    case True
    then show ?thesis
      unfolding step
      by (subst string_maker.simps)
         (simp add: upto_last_separator_def after_last_separator_def separator_head_Cons)
  next
    case False
    then have "\<not> separator_head (x # cs)" by (simp add: separator_head_Cons)
    from snoc.IH [OF this, of "x # q"] False show ?thesis
      unfolding step
      by (simp add: upto_last_separator_def after_last_separator_def)
  qed
qed

lemma string_maker_fullpath:
  "fullpath \<noteq> 0 \<Longrightarrow> string_maker fullpath (p @ q) (length p) cs = Inr (p @ cs @ [NUL])"
proof (induction p arbitrary: q cs rule: rev_induct)
  case Nil
  then show ?case by (simp add: string_maker.simps [of _ _ 0])
next
  case (snoc x p)
  have "string_maker fullpath ((p @ [x]) @ q) (length (p @ [x])) cs =
        string_maker fullpath (p @ x # q) (length p) (x # cs)"
    using snoc.prems by (subst string_maker.simps) (simp add: data_at_append)
  with snoc.IH [OF snoc.prems, of "x # q" "x # cs"] show ?case by simp
qed

text \<open>
  The trimmer in basename mode, on every literal: ill-formed exactly when the only separator
  of the literal is its first character, otherwise the text after the last separator.
\<close>

lemma make_string_basename:
  "make_string 0 s =
     (if length (upto_last_separator (c_str s)) = 1 then Inl Ambiguous_partial_specialization
      else Inr (after_last_separator (c_str s) @ [NUL]))"
proof -
  have "make_string 0 s =
        string_maker 0 (c_str s @ dropWhile (\<lambda>c. c \<noteq> NUL) s) (length (c_str s)) []"
    by (simp add: make_string_def strlen_c_str c_str_append_rest)
  then show ?thesis
    by (simp only: string_maker_scan [OF separator_head_Nil] append_Nil)
qed

lemma make_string_fullpath:
  assumes "fullpath \<noteq> 0"
  shows "make_string fullpath s = Inr (c_str s @ [NUL])"
proof -
  have "make_string fullpath s =
        string_maker fullpath (c_str s @ dropWhile (\<lambda>c. c \<noteq> NUL) s) (length (c_str s)) []"
    by (simp add: make_string_def strlen_c_str c_str_append_rest)
  then show ?thesis
    by (simp only: string_maker_fullpath [OF assms] append_Nil)
qed

lemma make_string_result:
  assumes "make_string 0 s = Inr r"
  shows "r = after_last_separator (c_str s) @ [NUL]"
    and "c_str r = after_last_separator (c_str s)"
proof -
  show r: "r = after_last_separator (c_str s) @ [NUL]"
    using assms by (simp add: make_string_basename split: if_splits)
  have "NUL \<notin> set (after_last_separator (c_str s))"
    using after_last_separator_set [of "c_str s"] c_str_NUL_free [of s] by blast
  then show "c_str r = after_last_separator (c_str s)"
    unfolding r by (rule c_str_terminated)
qed

text \<open>What holds of the spec's description of the trimmer.\<close>

lemma make_string_no_separator:
  assumes "\<forall>c \<in> set (c_str s). \<not> is_separator c"
  shows "make_string 0 s = Inr (c_str s @ [NUL])"
  using no_separator_whole [OF assms] by (simp add: make_string_basename)

lemma make_string_after_separator:
  assumes "c_str s = a @ x # b" and "is_separator x" and "\<forall>c \<in> set b. \<not> is_separator c"
    and "a \<noteq> []"
  shows "make_string 0 s = Inr (b @ [NUL])"
  using split_at_last_separator [OF assms(2,3), of a] assms(1,4)
  by (simp add: make_string_basename)

lemma make_string_leading_separator:
  assumes "c_str s = x # b" and "is_separator x" and "\<forall>c \<in> set b. \<not> is_separator c"
  shows "make_string 0 s = Inl Ambiguous_partial_specialization"
  using split_at_last_separator [OF assms(2,3), of "[]"] assms(1)
  by (simp add: make_string_basename)

lemma make_string_defined_iff:
  "(\<exists>r. make_string 0 s = Inr r) \<longleftrightarrow> length (upto_last_separator (c_str s)) \<noteq> 1"
  by (simp add: make_string_basename)

lemma make_string_empty: "make_string 0 [] = Inr [NUL]"
  by (simp add: make_string_basename c_str_def after_last_separator_def upto_last_separator_def)

lemma make_string_trailing_separator:
  assumes "c_str s = a @ [x]" and "is_separator x" and "a \<noteq> []"
  shows "make_string 0 s = Inr [NUL]"
  using make_string_after_separator [of s a x "[]"] assms by simp

text \<open>
  C1. For every string the basename-mode trimmer returns the text strictly after the last
  \<open>/\<close> or \<open>\\<close>, and the whole string when there is none; in particular \<open>A/B\<close> with no
  separator in \<open>B\<close> gives \<open>B\<close>. This fails for an empty \<open>A\<close>: for the literal \<open>/main.c:\<close>
  the instantiation is ambiguous and there is no result, where the claim promises
  \<open>main.c:\<close>.
\<close>

theorem make_string_root_file:
  "make_string 0 ''/main.c:'' = Inl Ambiguous_partial_specialization
   \<and> after_last_separator ''/main.c:'' = ''main.c:''"
  by code_simp

text \<open>
  C4. Trimming is idempotent: trimming the result of trimming \<open>s\<close> gives what trimming \<open>s\<close>
  gave (the same buffer, or the same failure when \<open>s\<close> has no trimmed form).
\<close>

theorem make_string_idempotent:
  "(case make_string 0 s of Inl e \<Rightarrow> Inl e | Inr r \<Rightarrow> make_string 0 r) = make_string 0 s"
proof (cases "make_string 0 s")
  case (Inl e)
  then show ?thesis by simp
next
  case (Inr r)
  note res = make_string_result [OF Inr]
  have "\<forall>c \<in> set (c_str r). \<not> is_separator c"
    unfolding res(2) by (blast dest: after_last_separator_free)
  then have "make_string 0 r = Inr (c_str r @ [NUL])"
    by (rule make_string_no_separator)
  also have "c_str r @ [NUL] = r"
    using res by simp
  finally show ?thesis
    using Inr by simp
qed

text \<open>
  C5. Edge cases of the trimmer: the empty string gives the empty string, a string ending in
  a separator gives the empty string, consecutive separators give the text after the final
  one. The second fails for the one-character strings \<open>/\<close> and \<open>\\<close>: the instantiation is
  ambiguous and gives nothing.
\<close>

theorem make_string_lone_separator:
  "make_string 0 ''/'' = Inl Ambiguous_partial_specialization"
  by code_simp

text \<open>
  C6. With the full-path switch defined, trimming is the identity on every string; with
  nothing defined the switch is 0, the basename mode, in which \<open>a/b\<close> is trimmed to \<open>b\<close>.
\<close>

theorem fullpath_mode_identity:
  "make_string (ARDUINOTRACE_ENABLE_FULLPATH (Some v)) s = Inr (c_str s @ [NUL])
   \<and> c_str (c_str s @ [NUL]) = c_str s
   \<and> ARDUINOTRACE_ENABLE_FULLPATH None = 0
   \<and> make_string (ARDUINOTRACE_ENABLE_FULLPATH None) ''a/b'' = Inr (''b'' @ [NUL])"
proof -
  have "make_string (ARDUINOTRACE_ENABLE_FULLPATH (Some v)) s = Inr (c_str s @ [NUL])"
    by (rule make_string_fullpath) (simp add: ARDUINOTRACE_ENABLE_FULLPATH_def)
  moreover have "c_str (c_str s @ [NUL]) = c_str s"
    using c_str_terminated [OF c_str_NUL_free, of s "[]"] by simp
  moreover have "ARDUINOTRACE_ENABLE_FULLPATH None = 0"
    by (simp add: ARDUINOTRACE_ENABLE_FULLPATH_def)
  moreover have "make_string (ARDUINOTRACE_ENABLE_FULLPATH None) ''a/b'' = Inr (''b'' @ [NUL])"
    by code_simp
  ultimately show ?thesis by blast
qed

text \<open>
  C10. Whatever the basename-mode trimmer returns is a suffix of its input, contains neither
  \<open>/\<close> nor \<open>\\<close>, and is no longer than the input.
\<close>

theorem make_string_suffix:
  assumes "make_string 0 s = Inr r"
  shows "suffix (c_str r) (c_str s)
         \<and> CHR ''/'' \<notin> set (c_str r) \<and> CHR 0x5C \<notin> set (c_str r)
         \<and> length (c_str r) \<le> length (c_str s)"
proof -
  note res = make_string_result [OF assms]
  have split: "c_str s = upto_last_separator (c_str s) @ c_str r"
    unfolding res(2) by (simp only: upto_after_last_separator)
  then have "suffix (c_str r) (c_str s)"
    by (rule suffixI)
  moreover have "CHR ''/'' \<notin> set (c_str r)" "CHR 0x5C \<notin> set (c_str r)"
    unfolding res(2) using after_last_separator_free [of _ "c_str s"]
    by (auto simp: is_separator_def)
  moreover have "length (c_str r) \<le> length (c_str s)"
  proof -
    have "length (c_str s) = length (upto_last_separator (c_str s)) + length (c_str r)"
      using arg_cong [OF split, of length] by simp
    then show ?thesis by simp
  qed
  ultimately show ?thesis by blast
qed

theorem make_string_suffix_witness:
  "make_string 0 ''/home/user/project/main.c:'' = Inr (''main.c:'' @ [NUL])
   \<and> suffix (c_str (''main.c:'' @ [NUL])) (c_str ''/home/user/project/main.c:'')
   \<and> CHR ''/'' \<notin> set (c_str (''main.c:'' @ [NUL]))
   \<and> CHR 0x5C \<notin> set (c_str (''main.c:'' @ [NUL]))
   \<and> length (c_str (''main.c:'' @ [NUL])) \<le> length (c_str ''/home/user/project/main.c:'')"
proof -
  have h: "make_string 0 ''/home/user/project/main.c:'' = Inr (''main.c:'' @ [NUL])"
    by code_simp
  show ?thesis
    using h make_string_suffix [OF h] by blast
qed

section \<open>Properties of the stream initializer\<close>

lemma wait_until_ready_returns:
  "ready (i + d) \<Longrightarrow> (\<forall>j<d. \<not> ready (i + j)) \<Longrightarrow>
   wait_until_ready ready i serial = Some (serial @ replicate (Suc d) Ready_query)"
proof (induction d arbitrary: i serial)
  case 0
  then show ?case by (subst wait_until_ready.simps) simp
next
  case (Suc d)
  from Suc.prems(2) have not_yet: "\<not> ready i"
    by (metis add.right_neutral zero_less_Suc)
  have later: "ready (Suc i + d)" "\<forall>j<d. \<not> ready (Suc i + j)"
    using Suc.prems by (simp, metis Suc_less_eq add_Suc_right add_Suc)
  have "wait_until_ready ready i serial =
        wait_until_ready ready (Suc i) (serial @ [Ready_query])"
    using not_yet by (subst wait_until_ready.simps) simp
  also have "\<dots> = Some ((serial @ [Ready_query]) @ replicate (Suc d) Ready_query)"
    using later by (rule Suc.IH)
  finally show ?case by simp
qed

lemma wait_until_ready_Some:
  assumes "wait_until_ready ready i serial = Some serial'"
  shows "\<exists>j\<ge>i. ready j"
proof (rule wait_until_ready.raw_induct
    [where P = "\<lambda>ready i serial serial'. \<exists>j\<ge>i. ready j", OF _ assms])
  fix wait :: "(nat \<Rightarrow> bool) \<Rightarrow> nat \<Rightarrow> serial \<Rightarrow> serial option"
  fix ready i serial serial'
  assume IH: "\<And>ready i serial serial'. wait ready i serial = Some serial' \<Longrightarrow> \<exists>j\<ge>i. ready j"
    and eq: "(if \<not> ready i then wait ready (Suc i) (serial @ [Ready_query])
              else Some (serial @ [Ready_query])) = Some serial'"
  show "\<exists>j\<ge>i. ready j"
  proof (cases "ready i")
    case True
    then show ?thesis by blast
  next
    case False
    with eq have "wait ready (Suc i) (serial @ [Ready_query]) = Some serial'"
      by simp
    then have "\<exists>j\<ge>Suc i. ready j" by (rule IH)
    then show ?thesis by (meson Suc_leD)
  qed
qed

lemma wait_until_ready_never:
  "\<forall>j. \<not> ready j \<Longrightarrow> wait_until_ready ready i serial = None"
  using wait_until_ready_Some [of ready i serial] by (cases "wait_until_ready ready i serial") auto

text \<open>
  C9. The initializer calls \<open>begin\<close> with the given speed and then queries the stream until it
  reports ready: it returns at the first query answered "ready", after any number of
  queries answered "not ready", and never when no query is answered "ready".
\<close>

theorem Initializer_busy_wait:
  "Initializer ready serial bauds =
     (if \<exists>k. ready k
      then Some (serial @ Begin bauds # replicate (Suc (LEAST k. ready k)) Ready_query)
      else None)
   \<and> Initializer (\<lambda>k. n \<le> k) serial bauds =
       Some (serial @ Begin bauds # replicate (Suc n) Ready_query)
   \<and> Initializer (\<lambda>k. False) serial bauds = None"
proof -
  have general: "Initializer ready serial bauds =
     (if \<exists>k. ready k
      then Some (serial @ Begin bauds # replicate (Suc (LEAST k. ready k)) Ready_query)
      else None)" for ready
  proof (cases "\<exists>k. ready k")
    case True
    then have "ready (0 + (LEAST k. ready k))"
      by (auto intro: LeastI)
    moreover have "\<forall>j<(LEAST k. ready k). \<not> ready (0 + j)"
      by (auto dest: not_less_Least)
    ultimately have "wait_until_ready ready 0 (serial @ [Begin bauds]) =
        Some ((serial @ [Begin bauds]) @ replicate (Suc (LEAST k. ready k)) Ready_query)"
      by (rule wait_until_ready_returns)
    with True show ?thesis
      by (simp add: Initializer_def serial_begin_def)
  next
    case False
    then show ?thesis
      by (simp add: Initializer_def wait_until_ready_never)
  qed
  have least: "(LEAST k. n \<le> k) = n"
    by (rule Least_equality) simp_all
  have "\<exists>k. n \<le> k" by blast
  then have "Initializer (\<lambda>k. n \<le> k) serial bauds =
       Some (serial @ Begin bauds # replicate (Suc n) Ready_query)"
    by (simp only: general [of "\<lambda>k. n \<le> k"] least if_True)
  moreover have "Initializer (\<lambda>k. False) serial bauds = None"
    by (simp add: general [of "\<lambda>k. False"])
  ultimately show ?thesis
    using general [of ready] by blast
qed

section \<open>Properties of the trace emitter\<close>

lemma content0_empty: "content0 content \<noteq> NUL \<longleftrightarrow> c_str content \<noteq> []"
  by (cases content) (simp_all add: content0_def c_str_def)

lemma transmitted_append:
  "transmitted eol (s @ t) = transmitted eol s @ transmitted eol t"
  by (simp add: transmitted_def)

lemma print_text_Chars: "print_text (Chars buf) = c_str buf"
  by (simp add: print_text_def)

lemma c_str_colon_space: "c_str '': '' = '': ''"
  by (simp add: c_str_def NUL_def)

text \<open>The calls one emitter makes, in order.\<close>

lemma Printer_unfold:
  assumes "make_string fullpath file = Inr fragment"
  shows "Printer fullpath file serial line function content content2 prefix_text =
         Inr (serial
              @ [Print (Chars prefix_text), Print (Chars fragment), Print (Number line),
                 Print (Chars '': '')]
              @ (if c_str content \<noteq> []
                 then [Print (Chars function), Print (Chars '': ''), Print (Chars content),
                       Println content2]
                 else [Println (Chars function)])
              @ [Flush])"
  using assms
  by (simp add: Printer_def content0_empty serial_print_def serial_println_def
        serial_flush_def)

lemma Printer_Inr:
  assumes "Printer fullpath file serial line function content content2 prefix_text = Inr serial'"
  shows "\<exists>fragment. make_string fullpath file = Inr fragment"
  using assms by (cases "make_string fullpath file") (simp_all add: Printer_def)

lemma Printer_text:
  assumes "make_string fullpath file = Inr fragment"
  shows "map_sum id (transmitted eol)
           (Printer fullpath file serial line function content content2 prefix_text) =
         Inr (transmitted eol serial
              @ c_str prefix_text @ c_str fragment @ print_text (Number line) @ '': ''
              @ (if c_str content \<noteq> []
                 then c_str function @ '': '' @ c_str content @ print_text content2 @ eol
                 else c_str function @ eol))"
  unfolding Printer_unfold [OF assms]
  by (simp add: transmitted_append print_text_Chars c_str_colon_space)
     (simp add: transmitted_def print_text_Chars c_str_colon_space)

text \<open>
  C2. Every emitter first prints the prefix, the file fragment, the line number and \<open>": "\<close>;
  then, for a non-empty label, the function, \<open>": "\<close>, the label, and the value with a line
  terminator; for an empty label only the function with a line terminator, whatever the
  value. Stated on the calls the stream receives and on the characters sent.
\<close>

theorem Printer_prints:
  assumes "make_string fullpath file = Inr fragment"
  shows "Printer fullpath file serial line function content content2 prefix_text =
         Inr (serial
              @ [Print (Chars prefix_text), Print (Chars fragment), Print (Number line),
                 Print (Chars '': '')]
              @ (if c_str content \<noteq> []
                 then [Print (Chars function), Print (Chars '': ''), Print (Chars content),
                       Println content2]
                 else [Println (Chars function)])
              @ [Flush])
       \<and> map_sum id (transmitted eol)
           (Printer fullpath file serial line function content content2 prefix_text) =
         Inr (transmitted eol serial
              @ c_str prefix_text @ c_str fragment @ print_text (Number line) @ '': ''
              @ (if c_str content \<noteq> []
                 then c_str function @ '': '' @ c_str content @ print_text content2 @ eol
                 else c_str function @ eol))"
  using Printer_unfold [OF assms] Printer_text [OF assms] by blast

theorem Printer_prints_witness:
  "make_string 0 ''src/a.c:'' = Inr (''a.c:'' @ [NUL])
   \<and> Printer 0 ''src/a.c:'' [] 7 ''f'' ''n = '' (Number 3) ''    '' =
       Inr [Print (Chars ''    ''), Print (Chars (''a.c:'' @ [NUL])), Print (Number 7),
            Print (Chars '': ''), Print (Chars ''f''), Print (Chars '': ''),
            Print (Chars ''n = ''), Println (Number 3), Flush]
   \<and> Printer 0 ''src/a.c:'' [] 7 ''f'' '''' (Number 3) ''    '' =
       Inr [Print (Chars ''    ''), Print (Chars (''a.c:'' @ [NUL])), Print (Number 7),
            Print (Chars '': ''), Println (Chars ''f''), Flush]
   \<and> map_sum id (transmitted ''\<newline>'') (Printer 0 ''src/a.c:'' [] 7 ''f'' ''n = '' (Number 3) ''    '') =
       Inr ''    a.c:7: f: n = 3\<newline>''"
proof -
  have h: "make_string 0 ''src/a.c:'' = Inr (''a.c:'' @ [NUL])"
    by code_simp
  have n: "print_text (Number 7) = ''7''" "print_text (Number 3) = ''3''"
    by code_simp+
  have c: "c_str ''n = '' = ''n = ''" "c_str '''' = ''''" "c_str ''f'' = ''f''"
      "c_str ''    '' = ''    ''" "c_str '': '' = '': ''"
      "c_str [CHR ''a'', CHR ''.'', CHR ''c'', CHR '':'', NUL] = ''a.c:''"
    by (simp_all add: c_str_def NUL_def)
  show ?thesis
    using h Printer_prints [OF h, of "[]" 7 "''f''" "''n = ''" "Number 3" "''    ''" "''\<newline>''"]
      Printer_prints [OF h, of "[]" 7 "''f''" "''''" "Number 3" "''    ''" "''\<newline>''"]
    by (simp add: n c transmitted_def print_text_Chars)
qed

text \<open>
  C7. An emitter that returns has flushed: the calls it adds to the stream are print calls
  followed by exactly one flush, the last call before it returns.
\<close>

theorem Printer_flushes_last:
  assumes "Printer fullpath file serial line function content content2 prefix_text = Inr serial'"
  shows "\<exists>calls. serial' = serial @ calls @ [Flush]
                 \<and> calls \<noteq> [] \<and> list_all is_print_call calls"
proof -
  from Printer_Inr [OF assms] obtain fragment
    where "make_string fullpath file = Inr fragment" ..
  from Printer_unfold [OF this, of serial line "function" content content2 prefix_text] assms
  have "serial' = serial
              @ ([Print (Chars prefix_text), Print (Chars fragment), Print (Number line),
                 Print (Chars '': '')]
              @ (if c_str content \<noteq> []
                 then [Print (Chars function), Print (Chars '': ''), Print (Chars content),
                       Println content2]
                 else [Println (Chars function)]))
              @ [Flush]"
    by simp
  then show ?thesis
    by (rule exI [where P = "\<lambda>calls. serial' = serial @ calls @ [Flush] \<and> calls \<noteq> [] \<and> list_all is_print_call calls", OF conjI]) simp
qed

theorem Printer_flushes_last_witness:
  "Printer 0 ''src/a.c:'' [Begin 9600] 7 ''f'' '''' (Chars '''') ''    '' =
     Inr ([Begin 9600] @ [Print (Chars ''    ''), Print (Chars (''a.c:'' @ [NUL])),
           Print (Number 7), Print (Chars '': ''), Println (Chars ''f'')] @ [Flush])
   \<and> (\<exists>calls. [Begin 9600] @ [Print (Chars ''    ''), Print (Chars (''a.c:'' @ [NUL])),
           Print (Number 7), Print (Chars '': ''), Println (Chars ''f'')] @ [Flush]
         = [Begin 9600] @ calls @ [Flush] \<and> calls \<noteq> [] \<and> list_all is_print_call calls)"
proof -
  have h: "Printer 0 ''src/a.c:'' [Begin 9600] 7 ''f'' '''' (Chars '''') ''    '' =
     Inr ([Begin 9600] @ [Print (Chars ''    ''), Print (Chars (''a.c:'' @ [NUL])),
           Print (Number 7), Print (Chars '': ''), Println (Chars ''f'')] @ [Flush])"
    by code_simp
  show ?thesis
    using h Printer_flushes_last [OF h] by blast
qed

section \<open>End to end\<close>

lemma main_c_fragment:
  "make_string 0 ''/home/user/project/main.c:'' = Inr (''main.c:'' @ [NUL])"
  by code_simp

lemma main_c_texts:
  "c_str [CHR ''m'', CHR ''a'', CHR ''i'', CHR ''n'', CHR ''.'', CHR ''c'', CHR '':'', NUL] =
     ''main.c:''"
  "c_str ''    '' = ''    ''"
  "c_str ''******* ERROR: '' = ''******* ERROR: ''"
  "c_str ''loop'' = ''loop''"
  "c_str ''x = '' = ''x = ''"
  "c_str ''x = 7'' = ''x = 7''"
  "c_str '''' = ''''"
  "print_text (Number 42) = ''42''"
  "print_text (Number 7) = ''7''"
  by code_simp+

text \<open>
  C3. In basename mode, at line 42 of \<open>/home/user/project/main.c\<close> in function \<open>loop\<close>:
  the plain trace sends \<open>"    main.c:42: loop"\<close> and a line terminator; the dump of a variable
  \<open>x\<close> of value 7 (label \<open>"x = "\<close>) sends \<open>"    main.c:42: loop: x = 7"\<close> and a line
  terminator; with the error marker the line starts with \<open>"******* ERROR: "\<close> in place of the
  four spaces, both for the same label and value and for the message \<open>"x = 7"\<close> thrown.
\<close>

theorem end_to_end_main_c:
  "map_sum id (transmitted eol)
     (TRACE 0 serial
        \<lparr>FILE = ''/home/user/project/main.c'', LINE = 42, PRETTY_FUNCTION = ''loop''\<rparr>) =
   Inr (transmitted eol serial @ ''    main.c:42: loop'' @ eol)
   \<and> map_sum id (transmitted eol)
     (DUMP 0 serial
        \<lparr>FILE = ''/home/user/project/main.c'', LINE = 42, PRETTY_FUNCTION = ''loop''\<rparr>
        ''x'' (Number 7)) =
   Inr (transmitted eol serial @ ''    main.c:42: loop: x = 7'' @ eol)
   \<and> map_sum id (transmitted eol)
     (ARDUINOTRACE_PRINT 0 serial ''******* ERROR: '' ''/home/user/project/main.c:'' 42
        ''loop'' ''x = '' (Number 7)) =
   Inr (transmitted eol serial @ ''******* ERROR: '' @ ''main.c:42: loop: x = 7'' @ eol)
   \<and> map_sum id (transmitted eol)
     (THROW 0 serial
        \<lparr>FILE = ''/home/user/project/main.c'', LINE = 42, PRETTY_FUNCTION = ''loop''\<rparr>
        ''x = 7'') =
   Inr (transmitted eol serial @ ''******* ERROR: '' @ ''main.c:42: loop: x = 7'' @ eol)"
proof -
  note sent = Printer_text [OF main_c_fragment, of eol serial]
  have "map_sum id (transmitted eol)
     (TRACE 0 serial
        \<lparr>FILE = ''/home/user/project/main.c'', LINE = 42, PRETTY_FUNCTION = ''loop''\<rparr>) =
   Inr (transmitted eol serial @ ''    main.c:42: loop'' @ eol)"
    using sent [of 42 "''loop''" "''''" "Chars ''''" "''    ''"]
    by (simp add: TRACE_def ARDUINOTRACE_PRINT_def main_c_texts)
  moreover have "map_sum id (transmitted eol)
     (DUMP 0 serial
        \<lparr>FILE = ''/home/user/project/main.c'', LINE = 42, PRETTY_FUNCTION = ''loop''\<rparr>
        ''x'' (Number 7)) =
   Inr (transmitted eol serial @ ''    main.c:42: loop: x = 7'' @ eol)"
    using sent [of 42 "''loop''" "''x = ''" "Number 7" "''    ''"]
    by (simp add: DUMP_def ARDUINOTRACE_PRINT_def main_c_texts)
  moreover have "map_sum id (transmitted eol)
     (ARDUINOTRACE_PRINT 0 serial ''******* ERROR: '' ''/home/user/project/main.c:'' 42
        ''loop'' ''x = '' (Number 7)) =
   Inr (transmitted eol serial @ ''******* ERROR: '' @ ''main.c:42: loop: x = 7'' @ eol)"
    using sent [of 42 "''loop''" "''x = ''" "Number 7" "''******* ERROR: ''"]
    by (simp add: ARDUINOTRACE_PRINT_def main_c_texts)
  moreover have "map_sum id (transmitted eol)
     (THROW 0 serial
        \<lparr>FILE = ''/home/user/project/main.c'', LINE = 42, PRETTY_FUNCTION = ''loop''\<rparr>
        ''x = 7'') =
   Inr (transmitted eol serial @ ''******* ERROR: '' @ ''main.c:42: loop: x = 7'' @ eol)"
    using sent [of 42 "''loop''" "''x = 7''" "Chars ''''" "''******* ERROR: ''"]
    by (simp add: THROW_def ARDUINOTRACE_PRINT_def main_c_texts print_text_Chars)
  ultimately show ?thesis by blast
qed

section \<open>Tracing disabled\<close>

lemma call_when_disabled_no_effect:
  "call_when_disabled name nargs serial = Inr serial' \<Longrightarrow> serial' = serial"
  by (auto simp: call_when_disabled_def split: option.splits if_splits)

lemma call_when_disabled_expands:
  "call_when_disabled ''TRACE'' 0 serial = Inr serial"
  "call_when_disabled ''DUMP'' 1 serial = Inr serial"
  "call_when_disabled ''DEBUG'' 1 serial = Inr serial"
  "call_when_disabled ''ARDUINOTRACE_INIT'' 1 serial = Inr serial"
  by (simp_all add: call_when_disabled_def disabled_defines_def)

text \<open>
  C8. With tracing disabled (\<open>ARDUINOTRACE_ENABLE\<close> other than 1) every trace macro is a
  no-op. The disabled branch has no definition of \<open>THROW_DUMP\<close>, and its second definition
  of \<open>THROW\<close> takes two parameters:
  the call sites \<open>THROW_DUMP(message, variable)\<close> and \<open>THROW(message)\<close> are not replaced by
  nothing, they do not compile.
\<close>

theorem disabled_THROW_DUMP_undefined:
  "ARDUINOTRACE_ENABLE (Some 0) \<noteq> 1
   \<and> call_when_disabled ''THROW_DUMP'' 2 serial = Inl Undefined_macro
   \<and> call_when_disabled ''THROW'' 1 serial = Inl Wrong_number_of_arguments"
  by (simp add: ARDUINOTRACE_ENABLE_def call_when_disabled_def disabled_defines_def)

end
